theory Spec2Isabelle
  imports Main "HOL-Library.Word"
begin

section \<open>The resource pool of \<^verbatim>\<open>pool/pool.go\<close>\<close>

text \<open>
  The package has one type, \<^verbatim>\<open>Pool\<close>, and four operations: \<^verbatim>\<open>New\<close>,
  \<^verbatim>\<open>Acquire\<close>, \<^verbatim>\<open>Release\<close> and \<^verbatim>\<open>Close\<close>. The pool keeps its idle
  resources in a buffered Go channel, so the embedding starts with the channel
  operations the code uses, then the struct, then the four operations.

  Conventions of the embedding:
  \<^item> a resource is a non-nil \<^verbatim>\<open>io.Closer\<close>, a value of the type variable \<open>'r\<close>;
    equality on \<open>'r\<close> is identity of the instance. Where Go can hand a nil
    interface around (the results of \<^verbatim>\<open>Acquire\<close> and of the factory) the type is
    \<open>'r option\<close>;
  \<^item> everything the package does to the outside is appended to a trace of events:
    a line given to \<^verbatim>\<open>log.Println\<close>, a call of a resource's \<^verbatim>\<open>Close\<close>, a call of
    the factory;
  \<^item> a call can return, panic, or block forever; each operation yields one of these
    three outcomes together with the pool and the outside world it leaves behind.
\<close>

subsection \<open>Errors, events, outcomes\<close>

text \<open>A Go \<^verbatim>\<open>error\<close> value built by \<^verbatim>\<open>errors.New\<close>; the factory's errors are of
  the same type.\<close>

datatype error = errors_New string

text \<open>\<^verbatim>\<open>var ErrPoolClosed = errors.New("pool has been closed")\<close>\<close>

definition ErrPoolClosed :: error where
  "ErrPoolClosed = errors_New ''pool has been closed''"

datatype 'r event =
    LogLine string     \<comment> \<open>one \<^verbatim>\<open>log.Println\<close>\<close>
  | CloseCall 'r       \<comment> \<open>\<^verbatim>\<open>r.Close()\<close> was invoked on resource \<open>r\<close>\<close>
  | FactoryCall        \<comment> \<open>the factory was invoked\<close>

datatype 'a outcome =
    Returns 'a
  | Panics string
  | Blocks

text \<open>The world outside the pool: the trace so far, and the state the factory closes
  over (a factory is a side-effecting \<^verbatim>\<open>func() (io.Closer, error)\<close>).\<close>

record ('r, 'f) world =
  trace :: "'r event list"
  fstate :: "'f"

type_synonym ('r, 'f) factory = "'f \<Rightarrow> ('r option \<times> error option) \<times> 'f"

text \<open>What \<^verbatim>\<open>Close()\<close> of each resource returns (\<open>None\<close> is a nil error).\<close>

type_synonym 'r closer = "'r \<Rightarrow> error option"

definition log_Println :: "string \<Rightarrow> ('r, 'f) world \<Rightarrow> ('r, 'f) world" where
  "log_Println s w = w\<lparr>trace := trace w @ [LogLine s]\<rparr>"

definition call_Close :: "'r closer \<Rightarrow> 'r \<Rightarrow> ('r, 'f) world \<Rightarrow> error option \<times> ('r, 'f) world" where
  "call_Close cl r w = (cl r, w\<lparr>trace := trace w @ [CloseCall r]\<rparr>)"

definition call_factory ::
  "('r, 'f) factory \<Rightarrow> ('r, 'f) world \<Rightarrow> ('r option \<times> error option) \<times> ('r, 'f) world" where
  "call_factory fn w =
     (let (res, fs) = fn (fstate w)
      in (res, w\<lparr>trace := trace w @ [FactoryCall], fstate := fs\<rparr>))"

subsection \<open>Buffered channels\<close>

text \<open>A buffered \<^verbatim>\<open>chan io.Closer\<close>: the queued values, oldest first, the capacity
  given to \<^verbatim>\<open>make\<close>, and whether \<^verbatim>\<open>close\<close> has been applied.\<close>

record 'r chan =
  chan_buf :: "'r list"
  chan_cap :: nat
  chan_closed :: bool

definition make_chan :: "nat \<Rightarrow> 'r chan" where
  "make_chan n = \<lparr>chan_buf = [], chan_cap = n, chan_closed = False\<rparr>"

text \<open>
  \<^verbatim>\<open>make(chan io.Closer, size)\<close> with a size of type \<^verbatim>\<open>uint\<close>. The compiler
  converts the size to \<^verbatim>\<open>int\<close> and calls the runtime's \<^verbatim>\<open>makechan\<close>, which refuses a
  size that is negative after the conversion or whose buffer does not fit the
  allocation limit:
  \<^verbatim>\<open>
  mem, overflow := math.MulUintptr(elem.Size_, uintptr(size))
  if overflow || mem > maxAlloc-hchanSize || size < 0 {
      panic(plainError("makechan: size out of range"))
  }
  \<close>
  The size of a channel element (here an interface value), \<^verbatim>\<open>maxAlloc\<close> and
  \<^verbatim>\<open>hchanSize\<close> are constants of the platform, with \<^verbatim>\<open>hchanSize\<close> below \<^verbatim>\<open>maxAlloc\<close>;
  \<^verbatim>\<open>uintptr\<close> has the width \<open>'w\<close> of \<^verbatim>\<open>uint\<close>, and the product wraps around at that
  width. Running out of memory below the limit is not modelled.
\<close>

record go_runtime =
  elem_size :: nat
  max_alloc :: nat
  hchan_size :: nat

definition makechan_panics :: "go_runtime \<Rightarrow> 'w::len word \<Rightarrow> bool" where
  "makechan_panics rt sz \<longleftrightarrow>
     (let prod = elem_size rt * unat sz;
          overflow = (2 ^ LENGTH('w) \<le> prod);
          mem = prod mod 2 ^ LENGTH('w)
      in overflow \<or> max_alloc rt - hchan_size rt < mem \<or> sint sz < 0)"

definition makechan :: "go_runtime \<Rightarrow> 'w::len word \<Rightarrow> 'r chan option" where
  "makechan rt sz = (if makechan_panics rt sz then None else Some (make_chan (unat sz)))"

text \<open>A receive \<^verbatim>\<open>r, ok := <-c\<close>: a queued value with \<open>ok = true\<close>; on a closed and
  empty channel the zero value with \<open>ok = false\<close>; on an open and empty channel the
  receive is not ready.\<close>

datatype 'r recv = Received "'r option" bool | RecvNotReady

definition chan_recv :: "'r chan \<Rightarrow> 'r recv \<times> 'r chan" where
  "chan_recv c =
     (case chan_buf c of
        x # xs \<Rightarrow> (Received (Some x) True, c\<lparr>chan_buf := xs\<rparr>)
      | [] \<Rightarrow> if chan_closed c then (Received None False, c) else (RecvNotReady, c))"

text \<open>A send \<^verbatim>\<open>c <- r\<close>: it panics on a closed channel, enqueues when the buffer has
  room, and is not ready when the buffer is full (nothing in this package ever waits
  in a receive, so a send is never handed over directly).\<close>

datatype 'r send = Sent "'r chan" | SendNotReady | SendPanics

definition chan_send :: "'r chan \<Rightarrow> 'r \<Rightarrow> 'r send" where
  "chan_send c r =
     (if chan_closed c then SendPanics
      else if length (chan_buf c) < chan_cap c then Sent (c\<lparr>chan_buf := chan_buf c @ [r]\<rparr>)
      else SendNotReady)"

text \<open>\<^verbatim>\<open>close(c)\<close> panics on a channel that is closed already.\<close>

definition chan_close :: "'r chan \<Rightarrow> 'r chan option" where
  "chan_close c = (if chan_closed c then None else Some (c\<lparr>chan_closed := True\<rparr>))"

subsection \<open>The pool\<close>

text \<open>
  \<^verbatim>\<open>
  type Pool struct {
      m         sync.Mutex
      resources chan io.Closer
      factory   func() (io.Closer, error)
      closed    bool
  }
  \<close>
  The mutex is the flag \<open>m\<close>: true while some caller holds it.
\<close>

record ('r, 'f) pool =
  m :: bool
  resources :: "'r chan"
  factory :: "('r, 'f) factory"
  closed :: bool

text \<open>What a call leaves behind: its outcome, the pool, the world.\<close>

type_synonym ('a, 'r, 'f) reply = "'a outcome \<times> ('r, 'f) pool \<times> ('r, 'f) world"

text \<open>
  \<^verbatim>\<open>
  func New(fn func() (io.Closer, error), size uint) (*Pool, error) {
      if size <= 0 {
          return nil, errors.New("size value too small")
      }
      return &Pool{factory: fn, resources: make(chan io.Closer, size)}, nil
  }
  \<close>
  The parameter \<^verbatim>\<open>size\<close> (here \<open>sz\<close>) is a \<^verbatim>\<open>uint\<close>, a machine word of the
  platform's width \<open>'w\<close>, so \<^verbatim>\<open>size <= 0\<close> is an unsigned comparison. When \<^verbatim>\<open>New\<close>
  returns, the result is Go's pair: the pool or nil, and the error or nil; when
  \<^verbatim>\<open>make\<close> panics, \<^verbatim>\<open>New\<close> panics. The world is passed through untouched: \<^verbatim>\<open>New\<close>
  stores \<open>fn\<close> and neither logs nor calls it.
\<close>

definition New ::
  "go_runtime \<Rightarrow> ('r, 'f) factory \<Rightarrow> 'w::len word \<Rightarrow> ('r, 'f) world \<Rightarrow>
     (('r, 'f) pool option \<times> error option) outcome \<times> ('r, 'f) world" where
  "New rt fn sz w =
     (if sz \<le> 0 then (Returns (None, Some (errors_New ''size value too small'')), w)
      else (case makechan rt sz of
              None \<Rightarrow> (Panics ''makechan: size out of range'', w)
            | Some c \<Rightarrow>
                (Returns (Some \<lparr>m = False, resources = c, factory = fn, closed = False\<rparr>, None),
                 w)))"

text \<open>
  \<^verbatim>\<open>
  func (p *Pool) Acquire() (io.Closer, error) {
      select {
      case r, ok := <-p.resources:
          log.Println("Acquire:", "Shared Resource")
          if !ok {
              return nil, ErrPoolClosed
          }
          return r, nil
      default:
          log.Println("Acquire:", "New Resource")
          return p.factory()
      }
  }
  \<close>
  The \<^verbatim>\<open>select\<close> with a \<^verbatim>\<open>default\<close> takes the receive when it is ready and the
  default otherwise. The mutex is not touched.
\<close>

definition Acquire ::
  "('r, 'f) pool \<Rightarrow> ('r, 'f) world \<Rightarrow> ('r option \<times> error option, 'r, 'f) reply" where
  "Acquire p w =
     (case chan_recv (resources p) of
        (Received r ok, c) \<Rightarrow>
          (let w1 = log_Println ''Acquire: Shared Resource'' w;
               p1 = p\<lparr>resources := c\<rparr>
           in if \<not> ok then (Returns (None, Some ErrPoolClosed), p1, w1)
              else (Returns (r, None), p1, w1))
      | (RecvNotReady, c) \<Rightarrow>
          (let w1 = log_Println ''Acquire: New Resource'' w;
               (res, w2) = call_factory (factory p) w1
           in (Returns res, p, w2)))"

text \<open>
  \<^verbatim>\<open>
  func (p *Pool) Release(r io.Closer) {
      p.m.Lock()
      defer p.m.Unlock()
      if p.closed {
          r.Close()
          return
      }
      select {
      case p.resources <- r:
          log.Println("Release:", "In Queue")
      default:
          log.Println("Release:", "Closing")
          r.Close()
      }
  }
  \<close>
  \<^verbatim>\<open>Lock\<close> on a held mutex waits; run alone, that is forever. The deferred
  \<^verbatim>\<open>Unlock\<close> runs on every way out, the panic of a send included. The value
  \<^verbatim>\<open>r.Close()\<close> returns is dropped, as in the source.
\<close>

definition Release ::
  "'r closer \<Rightarrow> ('r, 'f) pool \<Rightarrow> 'r \<Rightarrow> ('r, 'f) world \<Rightarrow> (unit, 'r, 'f) reply" where
  "Release cl p r w =
     (if m p then (Blocks, p, w)
      else let p1 = p\<lparr>m := True\<rparr> in
        if closed p1 then
          (let (_, w1) = call_Close cl r w in (Returns (), p1\<lparr>m := False\<rparr>, w1))
        else
          (case chan_send (resources p1) r of
             Sent c \<Rightarrow>
               (Returns (), p1\<lparr>resources := c, m := False\<rparr>, log_Println ''Release: In Queue'' w)
           | SendNotReady \<Rightarrow>
               (let w1 = log_Println ''Release: Closing'' w;
                    (_, w2) = call_Close cl r w1
                in (Returns (), p1\<lparr>m := False\<rparr>, w2))
           | SendPanics \<Rightarrow> (Panics ''send on closed channel'', p1\<lparr>m := False\<rparr>, w)))"

text \<open>
  The loop \<^verbatim>\<open>for r := range p.resources { r.Close() }\<close>: it receives until the
  channel is closed and empty, and waits on a channel that is empty and open. Run
  alone, with nobody left to send or to close the channel, that wait never ends.
\<close>

function range_resources ::
  "'r closer \<Rightarrow> 'r chan \<Rightarrow> ('r, 'f) world \<Rightarrow> unit outcome \<times> 'r chan \<times> ('r, 'f) world" where
  "range_resources cl c w =
     (case chan_recv c of
        (Received (Some r) ok, c1) \<Rightarrow>
          (if ok then range_resources cl c1 (snd (call_Close cl r w))
           else (Returns (), c1, w))
      | (Received None ok, c1) \<Rightarrow> (Returns (), c1, w)
      | (RecvNotReady, c1) \<Rightarrow> (Blocks, c1, w))"
  by pat_completeness auto
termination
  by (relation "measure (\<lambda>(cl, c, w). length (chan_buf c))")
     (auto simp: chan_recv_def split: list.splits if_splits)

declare range_resources.simps [simp del]

text \<open>
  \<^verbatim>\<open>
  func (p *Pool) Close() {
      p.m.Lock()
      defer p.m.Unlock()
      if p.closed {
          return
      }
      p.closed = true
      close(p.resources)
      for r := range p.resources {
          r.Close()
      }
  }
  \<close>
\<close>

definition Close ::
  "'r closer \<Rightarrow> ('r, 'f) pool \<Rightarrow> ('r, 'f) world \<Rightarrow> (unit, 'r, 'f) reply" where
  "Close cl p w =
     (if m p then (Blocks, p, w)
      else let p1 = p\<lparr>m := True\<rparr> in
        if closed p1 then (Returns (), p1\<lparr>m := False\<rparr>, w)
        else let p2 = p1\<lparr>closed := True\<rparr> in
          (case chan_close (resources p2) of
             None \<Rightarrow> (Panics ''close of closed channel'', p2\<lparr>m := False\<rparr>, w)
           | Some c \<Rightarrow>
               (case range_resources cl c w of
                  (Returns u, c1, w1) \<Rightarrow> (Returns (), p2\<lparr>resources := c1, m := False\<rparr>, w1)
                | (Panics s, c1, w1) \<Rightarrow> (Panics s, p2\<lparr>resources := c1, m := False\<rparr>, w1)
                | (Blocks, c1, w1) \<Rightarrow> (Blocks, p2\<lparr>resources := c1\<rparr>, w1))))"

subsection \<open>Reading a trace\<close>

text \<open>How often \<^verbatim>\<open>Close\<close> was invoked on a resource, and how often the factory ran.\<close>

definition close_calls :: "'r event list \<Rightarrow> 'r \<Rightarrow> nat" where
  "close_calls t r = count_list t (CloseCall r)"

definition factory_calls :: "'r event list \<Rightarrow> nat" where
  "factory_calls t = count_list t FactoryCall"

subsection \<open>Pools at rest\<close>

text \<open>
  What holds of a pool between two calls, when no call is under way: the mutex is
  free, the buffer respects its positive capacity, the channel is closed exactly when
  the flag is set, and a closed pool has an empty buffer. \<^verbatim>\<open>New\<close> establishes it and
  every operation keeps it (lemmas \<open>wf_pool_New\<close> to \<open>wf_pool_Close\<close> below).
\<close>

definition wf_pool :: "('r, 'f) pool \<Rightarrow> bool" where
  "wf_pool p \<longleftrightarrow>
     \<not> m p \<and>
     0 < chan_cap (resources p) \<and>
     length (chan_buf (resources p)) \<le> chan_cap (resources p) \<and>
     chan_closed (resources p) = closed p \<and>
     (closed p \<longrightarrow> chan_buf (resources p) = [])"

subsection \<open>Interleaved executions\<close>

text \<open>
  Callers run concurrently. \<^verbatim>\<open>Release\<close> and \<^verbatim>\<open>Close\<close> hold the mutex from their
  first statement to their return, so at most one of them is under way at a time;
  the program counter below says which one and where it stands. \<^verbatim>\<open>Acquire\<close> takes
  no lock: its one access to the pool, the \<^verbatim>\<open>select\<close>, is a single channel
  operation and may fall between any two statements of the mutex holder.

  A step is one access to the pool. What a caller does to the world alone (a log
  line, a resource's \<^verbatim>\<open>Close\<close>, the factory) and the deferred \<^verbatim>\<open>Unlock\<close> on the way
  out are taken together with the access before them.
\<close>

datatype 'r pc =
    Idle                 \<comment> \<open>nobody holds the mutex\<close>
  | RelTest 'r           \<comment> \<open>\<^verbatim>\<open>Release(r)\<close> holds the mutex, next: \<^verbatim>\<open>if p.closed\<close>\<close>
  | RelDiscard 'r        \<comment> \<open>next: \<^verbatim>\<open>r.Close(); return\<close>\<close>
  | RelSelect 'r         \<comment> \<open>next: the \<^verbatim>\<open>select\<close> with the send\<close>
  | CloseTest            \<comment> \<open>\<^verbatim>\<open>Close()\<close> holds the mutex, next: \<^verbatim>\<open>if p.closed\<close>\<close>
  | CloseSet             \<comment> \<open>next: \<^verbatim>\<open>p.closed = true\<close>\<close>
  | CloseChan            \<comment> \<open>next: \<^verbatim>\<open>close(p.resources)\<close>\<close>
  | CloseRange           \<comment> \<open>next: one receive of the \<^verbatim>\<open>range\<close> loop\<close>
  | Crashed string       \<comment> \<open>a panic has taken the program down\<close>

type_synonym ('r, 'f) config = "'r pc \<times> ('r, 'f) pool \<times> ('r, 'f) world"

text \<open>The next statement of the caller that holds the mutex; \<open>None\<close> when there is no
  such caller or it has to wait (the \<^verbatim>\<open>range\<close> loop on an open, empty channel).\<close>

fun holder_step ::
  "'r closer \<Rightarrow> 'r pc \<Rightarrow> ('r, 'f) pool \<Rightarrow> ('r, 'f) world \<Rightarrow> ('r, 'f) config option" where
  "holder_step cl Idle p w = None"
| "holder_step cl (Crashed s) p w = None"
| "holder_step cl (RelTest r) p w =
     Some (if closed p then RelDiscard r else RelSelect r, p, w)"
| "holder_step cl (RelDiscard r) p w =
     Some (Idle, p\<lparr>m := False\<rparr>, snd (call_Close cl r w))"
| "holder_step cl (RelSelect r) p w =
     (case chan_send (resources p) r of
        Sent c \<Rightarrow> Some (Idle, p\<lparr>resources := c, m := False\<rparr>, log_Println ''Release: In Queue'' w)
      | SendNotReady \<Rightarrow>
          Some (Idle, p\<lparr>m := False\<rparr>, snd (call_Close cl r (log_Println ''Release: Closing'' w)))
      | SendPanics \<Rightarrow> Some (Crashed ''send on closed channel'', p\<lparr>m := False\<rparr>, w))"
| "holder_step cl CloseTest p w =
     Some (if closed p then (Idle, p\<lparr>m := False\<rparr>, w) else (CloseSet, p, w))"
| "holder_step cl CloseSet p w = Some (CloseChan, p\<lparr>closed := True\<rparr>, w)"
| "holder_step cl CloseChan p w =
     (case chan_close (resources p) of
        None \<Rightarrow> Some (Crashed ''close of closed channel'', p\<lparr>m := False\<rparr>, w)
      | Some c \<Rightarrow> Some (CloseRange, p\<lparr>resources := c\<rparr>, w))"
| "holder_step cl CloseRange p w =
     (case chan_recv (resources p) of
        (Received (Some r) ok, c) \<Rightarrow>
          (if ok then Some (CloseRange, p\<lparr>resources := c\<rparr>, snd (call_Close cl r w))
           else Some (Idle, p\<lparr>resources := c, m := False\<rparr>, w))
      | (Received None ok, c) \<Rightarrow> Some (Idle, p\<lparr>resources := c, m := False\<rparr>, w)
      | (RecvNotReady, c) \<Rightarrow> None)"

text \<open>What the scheduler lets happen next: some caller runs \<^verbatim>\<open>Acquire\<close>, some caller
  of \<^verbatim>\<open>Release(r)\<close> or of \<^verbatim>\<open>Close()\<close> gets the free mutex, or the holder of the mutex
  runs its next statement.\<close>

datatype 'r action = DoAcquire | LockRelease 'r | LockClose | Advance

fun step :: "'r closer \<Rightarrow> 'r action \<Rightarrow> ('r, 'f) config \<Rightarrow> ('r, 'f) config option" where
  "step cl DoAcquire (pc, p, w) =
     (case pc of
        Crashed s \<Rightarrow> None
      | _ \<Rightarrow> (case Acquire p w of (out, p1, w1) \<Rightarrow> Some (pc, p1, w1)))"
| "step cl (LockRelease r) (pc, p, w) =
     (if pc = Idle \<and> \<not> m p then Some (RelTest r, p\<lparr>m := True\<rparr>, w) else None)"
| "step cl LockClose (pc, p, w) =
     (if pc = Idle \<and> \<not> m p then Some (CloseTest, p\<lparr>m := True\<rparr>, w) else None)"
| "step cl Advance (pc, p, w) = holder_step cl pc p w"

fun run :: "'r closer \<Rightarrow> 'r action list \<Rightarrow> ('r, 'f) config \<Rightarrow> ('r, 'f) config option" where
  "run cl [] cfg = Some cfg"
| "run cl (a # as) cfg = (case step cl a cfg of None \<Rightarrow> None | Some cfg1 \<Rightarrow> run cl as cfg1)"

text \<open>What every configuration of an execution that starts from \<^verbatim>\<open>New\<close> satisfies:
  the mutex flag and the two closed flags follow the program counter.\<close>

fun pc_inv :: "'r pc \<Rightarrow> ('r, 'f) pool \<Rightarrow> bool" where
  "pc_inv Idle p \<longleftrightarrow> \<not> m p \<and> chan_closed (resources p) = closed p"
| "pc_inv (RelTest r) p \<longleftrightarrow> m p \<and> chan_closed (resources p) = closed p"
| "pc_inv (RelDiscard r) p \<longleftrightarrow> m p \<and> closed p \<and> chan_closed (resources p)"
| "pc_inv (RelSelect r) p \<longleftrightarrow> m p \<and> \<not> closed p \<and> \<not> chan_closed (resources p)"
| "pc_inv CloseTest p \<longleftrightarrow> m p \<and> chan_closed (resources p) = closed p"
| "pc_inv CloseSet p \<longleftrightarrow> m p \<and> \<not> closed p \<and> \<not> chan_closed (resources p)"
| "pc_inv CloseChan p \<longleftrightarrow> m p \<and> closed p \<and> \<not> chan_closed (resources p)"
| "pc_inv CloseRange p \<longleftrightarrow> m p \<and> closed p \<and> chan_closed (resources p)"
| "pc_inv (Crashed s) p \<longleftrightarrow> False"

subsection \<open>Example values\<close>

text \<open>Concrete inputs for the instances below: resources are numbered, the factory
  hands out the next number at each call, and a resource's \<^verbatim>\<open>Close\<close> either always
  succeeds or fails on the odd-numbered resources.\<close>

definition counting_factory :: "(nat, nat) factory" where
  "counting_factory n = ((Some n, None), Suc n)"

definition failing_factory :: "(nat, nat) factory" where
  "failing_factory n = ((None, Some (errors_New ''dial failed'')), Suc n)"

definition close_ok :: "nat closer" where
  "close_ok r = None"

definition close_odd_fails :: "nat closer" where
  "close_odd_fails r = (if odd r then Some (errors_New ''close failed'') else None)"

text \<open>The constants of linux/amd64: an interface value takes 16 bytes, \<^verbatim>\<open>maxAlloc\<close>
  is \<open>2 ^ 48\<close> and \<^verbatim>\<open>hchanSize\<close> is 96.\<close>

definition linux_amd64 :: go_runtime where
  "linux_amd64 = \<lparr>elem_size = 16, max_alloc = 2 ^ 48, hchan_size = 96\<rparr>"

definition world0 :: "(nat, nat) world" where
  "world0 = \<lparr>trace = [], fstate = 100\<rparr>"

definition pool_of :: "(nat, nat) factory \<Rightarrow> nat list \<Rightarrow> nat \<Rightarrow> bool \<Rightarrow> (nat, nat) pool" where
  "pool_of fn xs n b =
     \<lparr>m = False, resources = \<lparr>chan_buf = xs, chan_cap = n, chan_closed = b\<rparr>,
      factory = fn, closed = b\<rparr>"

text \<open>A schedule in which an \<^verbatim>\<open>Acquire\<close> falls between two statements of a
  running \<^verbatim>\<open>Close\<close>, and the resource it took is released after the shutdown.\<close>

definition example_schedule :: "nat action list" where
  "example_schedule =
     [LockRelease 5, Advance, Advance,
      LockClose, Advance, Advance, DoAcquire, Advance, Advance,
      LockRelease 5, Advance, Advance]"

section \<open>Properties\<close>

subsection \<open>Construction\<close>

lemma makechan_panics_iff:
  fixes sz :: "'w::len word"
  assumes "max_alloc rt - hchan_size rt < 2 ^ LENGTH('w)"
  shows "makechan_panics rt sz \<longleftrightarrow>
           sint sz < 0 \<or> max_alloc rt - hchan_size rt < elem_size rt * unat sz"
proof (cases "2 ^ LENGTH('w) \<le> elem_size rt * unat sz")
  case True
  with assms show ?thesis by (simp add: makechan_panics_def)
next
  case False
  then show ?thesis by (auto simp: makechan_panics_def)
qed

lemma New_pool:
  "New rt fn sz w = (Returns (Some p, e), w1) \<Longrightarrow>
   p = \<lparr>m = False, resources = make_chan (unat sz), factory = fn, closed = False\<rparr> \<and>
   0 < unat sz \<and> e = None \<and> w1 = w"
  by (auto simp: New_def makechan_def unat_gt_0 split: if_splits)

lemma wf_pool_New:
  "New rt fn sz w = (Returns (Some p, e), w1) \<Longrightarrow> wf_pool p"
  by (auto dest!: New_pool simp: wf_pool_def make_chan_def)

lemma linux_amd64_examples:
  "\<not> makechan_panics linux_amd64 (1 :: 64 word)"
  "\<not> makechan_panics linux_amd64 (2 :: 64 word)"
  "makechan_panics linux_amd64 (18446744073709551615 :: 64 word)"
  by (simp_all add: makechan_panics_def linux_amd64_def)

subsection \<open>The branches of each operation\<close>

text \<open>One equation per path through the source, used by the theorems below.\<close>

lemma Acquire_nonempty:
  "chan_buf (resources p) = x # xs \<Longrightarrow>
   Acquire p w = (Returns (Some x, None), p\<lparr>resources := (resources p)\<lparr>chan_buf := xs\<rparr>\<rparr>,
                  log_Println ''Acquire: Shared Resource'' w)"
  by (simp add: Acquire_def chan_recv_def)

lemma Acquire_closed_empty:
  "chan_buf (resources p) = [] \<Longrightarrow> chan_closed (resources p) \<Longrightarrow>
   Acquire p w = (Returns (None, Some ErrPoolClosed), p, log_Println ''Acquire: Shared Resource'' w)"
  by (simp add: Acquire_def chan_recv_def)

lemma Acquire_open_empty:
  "chan_buf (resources p) = [] \<Longrightarrow> \<not> chan_closed (resources p) \<Longrightarrow>
   Acquire p w =
     (Returns (fst (factory p (fstate w))), p,
      \<lparr>trace = trace w @ [LogLine ''Acquire: New Resource'', FactoryCall],
       fstate = snd (factory p (fstate w))\<rparr>)"
  by (simp add: Acquire_def chan_recv_def call_factory_def log_Println_def split: prod.splits)

lemma Acquire_returns: "\<exists>res. fst (Acquire p w) = Returns res"
  by (auto simp: Acquire_def chan_recv_def Let_def split: list.splits prod.splits)

lemma Acquire_ignores_mutex:
  "Acquire (p\<lparr>m := b\<rparr>) w =
     (case Acquire p w of (out, p1, w1) \<Rightarrow> (out, p1\<lparr>m := b\<rparr>, w1))"
  by (auto simp: Acquire_def chan_recv_def Let_def split: list.splits prod.splits)

lemma Release_closed_flag:
  "\<not> m p \<Longrightarrow> closed p \<Longrightarrow>
   Release cl p r w = (Returns (), p, w\<lparr>trace := trace w @ [CloseCall r]\<rparr>)"
  by (simp add: Release_def call_Close_def)

lemma Release_enqueue:
  "\<not> m p \<Longrightarrow> \<not> closed p \<Longrightarrow> \<not> chan_closed (resources p) \<Longrightarrow>
   length (chan_buf (resources p)) < chan_cap (resources p) \<Longrightarrow>
   Release cl p r w =
     (Returns (), p\<lparr>resources := (resources p)\<lparr>chan_buf := chan_buf (resources p) @ [r]\<rparr>\<rparr>,
      log_Println ''Release: In Queue'' w)"
  by (simp add: Release_def chan_send_def)

lemma Release_full:
  "\<not> m p \<Longrightarrow> \<not> closed p \<Longrightarrow> \<not> chan_closed (resources p) \<Longrightarrow>
   \<not> length (chan_buf (resources p)) < chan_cap (resources p) \<Longrightarrow>
   Release cl p r w =
     (Returns (), p, w\<lparr>trace := trace w @ [LogLine ''Release: Closing'', CloseCall r]\<rparr>)"
  by (simp add: Release_def chan_send_def call_Close_def log_Println_def)

lemma range_resources_closed:
  "chan_closed c \<Longrightarrow>
   range_resources cl c w =
     (Returns (), c\<lparr>chan_buf := []\<rparr>, w\<lparr>trace := trace w @ map CloseCall (chan_buf c)\<rparr>)"
proof (induction "chan_buf c" arbitrary: c w)
  case Nil
  then show ?case by (subst range_resources.simps) (simp add: chan_recv_def)
next
  case (Cons x xs)
  from Cons.hyps(2) have buf: "chan_buf c = x # xs" by simp
  have "range_resources cl c w =
          range_resources cl (c\<lparr>chan_buf := xs\<rparr>) (snd (call_Close cl x w))"
    using buf by (subst range_resources.simps) (simp add: chan_recv_def)
  also have "\<dots> = (Returns (), c\<lparr>chan_buf := []\<rparr>,
                    w\<lparr>trace := trace w @ map CloseCall (chan_buf c)\<rparr>)"
    using Cons.hyps(1) [of "c\<lparr>chan_buf := xs\<rparr>" "snd (call_Close cl x w)"] Cons.prems buf
    by (simp add: call_Close_def)
  finally show ?case .
qed

lemma range_resources_open:
  "\<not> chan_closed c \<Longrightarrow>
   range_resources cl c w =
     (Blocks, c\<lparr>chan_buf := []\<rparr>, w\<lparr>trace := trace w @ map CloseCall (chan_buf c)\<rparr>)"
proof (induction "chan_buf c" arbitrary: c w)
  case Nil
  then show ?case by (subst range_resources.simps) (simp add: chan_recv_def)
next
  case (Cons x xs)
  from Cons.hyps(2) have buf: "chan_buf c = x # xs" by simp
  have "range_resources cl c w =
          range_resources cl (c\<lparr>chan_buf := xs\<rparr>) (snd (call_Close cl x w))"
    using buf by (subst range_resources.simps) (simp add: chan_recv_def)
  also have "\<dots> = (Blocks, c\<lparr>chan_buf := []\<rparr>,
                    w\<lparr>trace := trace w @ map CloseCall (chan_buf c)\<rparr>)"
    using Cons.hyps(1) [of "c\<lparr>chan_buf := xs\<rparr>" "snd (call_Close cl x w)"] Cons.prems buf
    by (simp add: call_Close_def)
  finally show ?case .
qed

lemma Close_closed_flag:
  "\<not> m p \<Longrightarrow> closed p \<Longrightarrow> Close cl p w = (Returns (), p, w)"
  by (simp add: Close_def)

lemma Close_open:
  "\<not> m p \<Longrightarrow> \<not> closed p \<Longrightarrow> \<not> chan_closed (resources p) \<Longrightarrow>
   Close cl p w =
     (Returns (),
      p\<lparr>closed := True, resources := (resources p)\<lparr>chan_buf := [], chan_closed := True\<rparr>\<rparr>,
      w\<lparr>trace := trace w @ map CloseCall (chan_buf (resources p))\<rparr>)"
  by (simp add: Close_def chan_close_def range_resources_closed)

lemma Close_open_chan_closed:
  "\<not> m p \<Longrightarrow> \<not> closed p \<Longrightarrow> chan_closed (resources p) \<Longrightarrow>
   Close cl p w = (Panics ''close of closed channel'', p\<lparr>closed := True\<rparr>, w)"
  by (simp add: Close_def chan_close_def)

lemma close_calls_append:
  "close_calls (t @ map CloseCall xs) r = close_calls t r + count_list xs r"
  by (induction xs arbitrary: t rule: rev_induct) (simp_all add: close_calls_def flip: append_assoc)

subsection \<open>Pools at rest stay at rest\<close>

text \<open>Every operation, started on a pool at rest, returns and leaves a pool at rest;
  only \<^verbatim>\<open>Close\<close> changes the closed flag.\<close>

lemma wf_pool_Acquire:
  "wf_pool p \<Longrightarrow> Acquire p w = (out, p1, w1) \<Longrightarrow> wf_pool p1 \<and> closed p1 = closed p"
  by (auto simp: Acquire_def chan_recv_def wf_pool_def Let_def
           split: list.splits prod.splits if_splits)

lemma wf_pool_Release:
  "wf_pool p \<Longrightarrow> Release cl p r w = (out, p1, w1) \<Longrightarrow>
   out = Returns () \<and> wf_pool p1 \<and> closed p1 = closed p"
  by (auto simp: Release_def chan_send_def wf_pool_def Let_def
           split: prod.splits if_splits)

lemma wf_pool_Close:
  "wf_pool p \<Longrightarrow> Close cl p w = (out, p1, w1) \<Longrightarrow>
   out = Returns () \<and> wf_pool p1 \<and> closed p1"
  by (cases "closed p") (auto simp: Close_closed_flag Close_open wf_pool_def)

lemma wf_pool_of: "wf_pool (pool_of fn xs n b) \<longleftrightarrow> 0 < n \<and> length xs \<le> n \<and> (b \<longrightarrow> xs = [])"
  by (auto simp: wf_pool_def pool_of_def)

lemma count_list_distinct:
  "distinct xs \<Longrightarrow> x \<in> set xs \<Longrightarrow> count_list xs x = 1"
  by (induction xs) auto

subsection \<open>What a resource's \<^verbatim>\<open>Close\<close> returns is dropped\<close>

lemma range_resources_closer:
  "range_resources cl c w = range_resources cl' c w"
  by (cases "chan_closed c") (simp_all add: range_resources_closed range_resources_open)

lemma Release_closer: "Release cl p r w = Release cl' p r w"
  by (simp add: Release_def call_Close_def Let_def split: send.splits)

lemma Close_closer: "Close cl p w = Close cl' p w"
  by (simp add: Close_def Let_def range_resources_closer [of cl _ _ cl'] split: option.splits)

subsection \<open>Operations as schedules\<close>

text \<open>Run without interference, each operation is one schedule of the interleaved
  model: the two views of the source agree.\<close>

lemma run_append:
  "run cl (as @ bs) cfg = (case run cl as cfg of None \<Rightarrow> None | Some cfg1 \<Rightarrow> run cl bs cfg1)"
  by (induction as arbitrary: cfg) (auto split: option.splits)

lemma run_CloseRange:
  "chan_closed (resources p) \<Longrightarrow>
   run cl (replicate (Suc (length (chan_buf (resources p)))) Advance) (CloseRange, p, w) =
     Some (Idle, p\<lparr>resources := (resources p)\<lparr>chan_buf := []\<rparr>, m := False\<rparr>,
           w\<lparr>trace := trace w @ map CloseCall (chan_buf (resources p))\<rparr>)"
proof (induction "chan_buf (resources p)" arbitrary: p w)
  case Nil
  then show ?case by (simp add: chan_recv_def)
next
  case (Cons x xs)
  from Cons.hyps(2) have buf: "chan_buf (resources p) = x # xs" by simp
  let ?p1 = "p\<lparr>resources := (resources p)\<lparr>chan_buf := xs\<rparr>\<rparr>"
  have one: "step cl Advance (CloseRange, p, w) = Some (CloseRange, ?p1, snd (call_Close cl x w))"
    using buf by (simp add: chan_recv_def)
  have rest: "run cl (replicate (Suc (length xs)) Advance) (CloseRange, ?p1, snd (call_Close cl x w)) =
     Some (Idle, p\<lparr>resources := (resources p)\<lparr>chan_buf := []\<rparr>, m := False\<rparr>,
           w\<lparr>trace := trace w @ map CloseCall (chan_buf (resources p))\<rparr>)"
    using Cons.hyps(1) [of ?p1 "snd (call_Close cl x w)"] Cons.prems buf
    by (simp add: call_Close_def)
  have "replicate (Suc (length (chan_buf (resources p)))) Advance =
          Advance # replicate (Suc (length xs)) (Advance :: 'a action)"
    using buf by simp
  then show ?case
    using one rest by (simp del: replicate.simps step.simps)
qed

lemma Acquire_as_run:
  "Acquire p w = (out, p1, w1) \<Longrightarrow> run cl [DoAcquire] (Idle, p, w) = Some (Idle, p1, w1)"
  by simp

lemma Release_as_run:
  "\<not> m p \<Longrightarrow> Release cl p r w = (Returns (), p1, w1) \<Longrightarrow>
   run cl [LockRelease r, Advance, Advance] (Idle, p, w) = Some (Idle, p1, w1)"
  by (auto simp: Release_def call_Close_def Let_def split: send.splits if_splits)

lemma Close_as_run:
  assumes "\<not> m p" and "chan_closed (resources p) = closed p"
  shows "run cl (LockClose # replicate (if closed p then 1 else 4 + length (chan_buf (resources p))) Advance)
           (Idle, p, w) =
         Some (Idle, snd (Close cl p w))"
proof (cases "closed p")
  case True
  then show ?thesis using assms by (simp add: Close_closed_flag)
next
  case False
  with assms have o: "\<not> chan_closed (resources p)" by simp
  let ?p3 = "p\<lparr>m := True, closed := True, resources := (resources p)\<lparr>chan_closed := True\<rparr>\<rparr>"
  have pre: "run cl [LockClose, Advance, Advance, Advance] (Idle, p, w) = Some (CloseRange, ?p3, w)"
    using assms(1) False o by (simp add: chan_close_def)
  have unlocked: "p\<lparr>m := False\<rparr> = p"
    using assms(1) by (cases p) simp
  have "?p3\<lparr>resources := (resources ?p3)\<lparr>chan_buf := []\<rparr>, m := False\<rparr> =
          (p\<lparr>m := False\<rparr>)\<lparr>closed := True,
             resources := (resources p)\<lparr>chan_buf := [], chan_closed := True\<rparr>\<rparr>"
    by simp
  then have fin: "snd (Close cl p w) =
          (?p3\<lparr>resources := (resources ?p3)\<lparr>chan_buf := []\<rparr>, m := False\<rparr>,
           w\<lparr>trace := trace w @ map CloseCall (chan_buf (resources ?p3))\<rparr>)"
    unfolding unlocked by (simp add: Close_open [OF assms(1) False o])
  have "chan_closed (resources ?p3)" by simp
  from run_CloseRange [OF this, of cl w]
  have post: "run cl (replicate (Suc (length (chan_buf (resources p)))) Advance) (CloseRange, ?p3, w) =
          Some (Idle, snd (Close cl p w))"
    unfolding fin by simp
  have "LockClose # replicate (4 + length (chan_buf (resources p))) Advance =
        [LockClose, Advance, Advance, Advance] @
          replicate (Suc (length (chan_buf (resources p)))) (Advance :: 'a action)"
    by (simp add: numeral_eq_Suc)
  then show ?thesis
    using False pre post by (simp only: run_append if_False option.case)
qed

subsection \<open>The program counter invariant\<close>

lemma Acquire_flags:
  "Acquire p w = (out, p1, w1) \<Longrightarrow>
   m p1 = m p \<and> closed p1 = closed p \<and> factory p1 = factory p \<and>
   chan_closed (resources p1) = chan_closed (resources p) \<and>
   chan_cap (resources p1) = chan_cap (resources p)"
  by (auto simp: Acquire_def chan_recv_def Let_def split: list.splits prod.splits if_splits)

lemma pc_inv_flags:
  "m p1 = m p \<Longrightarrow> closed p1 = closed p \<Longrightarrow>
   chan_closed (resources p1) = chan_closed (resources p) \<Longrightarrow> pc_inv pc p1 = pc_inv pc p"
  by (cases pc) simp_all

lemma pc_inv_holder_step:
  "pc_inv pc p \<Longrightarrow> holder_step cl pc p w = Some (pc1, p1, w1) \<Longrightarrow> pc_inv pc1 p1"
  by (cases pc)
     (auto simp: chan_send_def chan_close_def chan_recv_def
           split: if_splits list.splits)

lemma pc_inv_step:
  assumes "pc_inv pc p" and "step cl a (pc, p, w) = Some (pc1, p1, w1)"
  shows "pc_inv pc1 p1"
proof (cases a)
  case DoAcquire
  obtain out p2 w2 where acq: "Acquire p w = (out, p2, w2)"
    by (cases "Acquire p w") blast
  from assms(2) have same: "pc1 = pc \<and> p1 = p2"
    unfolding DoAcquire by (cases pc) (simp_all add: acq)
  from Acquire_flags [OF acq] have "pc_inv pc p2 = pc_inv pc p"
    by (intro pc_inv_flags) simp_all
  with assms(1) same show ?thesis by simp
next
  case (LockRelease r)
  from assms(2) have "pc1 = RelTest r \<and> p1 = p\<lparr>m := True\<rparr> \<and> pc = Idle"
    unfolding LockRelease by (simp split: if_splits)
  with assms(1) show ?thesis by simp
next
  case LockClose
  from assms(2) have "pc1 = CloseTest \<and> p1 = p\<lparr>m := True\<rparr> \<and> pc = Idle"
    unfolding LockClose by (simp split: if_splits)
  with assms(1) show ?thesis by simp
next
  case Advance
  from assms(2) have "holder_step cl pc p w = Some (pc1, p1, w1)"
    unfolding Advance by simp
  with assms(1) show ?thesis by (rule pc_inv_holder_step)
qed

lemma pc_inv_run:
  "pc_inv pc p \<Longrightarrow> run cl acts (pc, p, w) = Some (pc1, p1, w1) \<Longrightarrow> pc_inv pc1 p1"
proof (induction acts arbitrary: pc p w)
  case Nil
  then show ?case by simp
next
  case (Cons a acts)
  from Cons.prems(2) obtain pc2 p2 w2 where
    s: "step cl a (pc, p, w) = Some (pc2, p2, w2)" and
    r: "run cl acts (pc2, p2, w2) = Some (pc1, p1, w1)"
    by (cases "step cl a (pc, p, w)") (auto simp del: step.simps)
  from pc_inv_step [OF Cons.prems(1) s] r show ?case
    by (rule Cons.IH)
qed

lemma pc_inv_chan_closed: "pc_inv pc p \<Longrightarrow> chan_closed (resources p) \<Longrightarrow> closed p"
  by (cases pc) auto

lemma Release_no_panic:
  "chan_closed (resources p) \<longrightarrow> closed p \<Longrightarrow> \<not> m p \<Longrightarrow> fst (Release cl p r w) = Returns ()"
  by (auto simp: Release_def chan_send_def Let_def split: prod.splits)

lemma example_run:
  "run close_ok example_schedule (Idle, pool_of counting_factory [] 1 False, world0) =
     Some (Idle, pool_of counting_factory [] 1 True,
           \<lparr>trace = [LogLine ''Release: In Queue'', LogLine ''Acquire: Shared Resource'',
                     CloseCall 5], fstate = 100\<rparr>)"
proof -
  let ?w1 = "\<lparr>trace = [LogLine ''Release: In Queue''], fstate = 100\<rparr> :: (nat, nat) world"
  let ?w2 = "\<lparr>trace = [LogLine ''Release: In Queue'', LogLine ''Acquire: Shared Resource''],
              fstate = 100\<rparr> :: (nat, nat) world"
  let ?w3 = "\<lparr>trace = [LogLine ''Release: In Queue'', LogLine ''Acquire: Shared Resource'',
                       CloseCall 5], fstate = 100\<rparr> :: (nat, nat) world"
  let ?mid = "(pool_of counting_factory [] 1 False)\<lparr>m := True, closed := True\<rparr>"
  have s1: "run close_ok [LockRelease 5, Advance, Advance]
              (Idle, pool_of counting_factory [] 1 False, world0) =
            Some (Idle, pool_of counting_factory [5] 1 False, ?w1)"
    by (simp add: pool_of_def world0_def chan_send_def log_Println_def)
  have s2: "run close_ok [LockClose, Advance, Advance, DoAcquire]
              (Idle, pool_of counting_factory [5] 1 False, ?w1) =
            Some (CloseChan, ?mid, ?w2)"
    by (simp add: pool_of_def chan_recv_def Acquire_def log_Println_def)
  have s3: "run close_ok [Advance, Advance] (CloseChan, ?mid, ?w2) =
            Some (Idle, pool_of counting_factory [] 1 True, ?w2)"
    by (simp add: pool_of_def chan_recv_def chan_close_def)
  have s4: "run close_ok [LockRelease 5, Advance, Advance]
              (Idle, pool_of counting_factory [] 1 True, ?w2) =
            Some (Idle, pool_of counting_factory [] 1 True, ?w3)"
    by (simp add: pool_of_def call_Close_def)
  have split: "example_schedule =
          [LockRelease 5, Advance, Advance] @ [LockClose, Advance, Advance, DoAcquire] @
          [Advance, Advance] @ [LockRelease 5, Advance, Advance]"
    by (simp add: example_schedule_def)
  show ?thesis
    unfolding split by (simp only: run_append s1 s2 s3 s4 option.case)
qed

section \<open>The claims\<close>

subsection \<open>Construction\<close>

text \<open>
  C7, as the claim states it, fails: not every size \<open>> 0\<close> gives a pool. On
  linux/amd64 the size \<open>2 ^ 64 - 1\<close>, the largest \<^verbatim>\<open>uint\<close>, is positive, and \<^verbatim>\<open>make\<close>
  panics on it, so \<^verbatim>\<open>New\<close> returns neither a pool nor an error.
\<close>

theorem New_size_counterexample:
  "(0 :: 64 word) < 18446744073709551615 \<and>
   New linux_amd64 counting_factory (18446744073709551615 :: 64 word) world0 =
     (Panics ''makechan: size out of range'', world0)"
  by (simp add: New_def makechan_def linux_amd64_examples)

text \<open>
  C7, amended. \<^verbatim>\<open>New\<close> fails with its configuration error
  (\<^verbatim>\<open>"size value too small"\<close>) if and only if the requested size is \<open>\<le> 0\<close>, and returns
  without a pool exactly then; it leaves the world as it found it, so the factory is
  not invoked at construction. For every size \<open>> 0\<close> that the runtime accepts for a
  channel (it fits an \<^verbatim>\<open>int\<close> and the buffer fits the allocation limit) \<^verbatim>\<open>New\<close> returns
  a pool whose channel has that capacity, holds no resource and is open, with the
  mutex free and the closed flag unset. For a size \<open>> 0\<close> that the runtime refuses,
  \<^verbatim>\<open>New\<close> panics in \<^verbatim>\<open>make\<close>.
\<close>

theorem New_size:
  "(fst (New rt fn sz w) = Returns (None, Some (errors_New ''size value too small'')) \<longleftrightarrow>
      sz \<le> 0) \<and>
   ((\<exists>e. fst (New rt fn sz w) = Returns (None, e)) \<longleftrightarrow> sz \<le> 0) \<and>
   snd (New rt fn sz w) = w \<and>
   (0 < sz \<and> \<not> makechan_panics rt sz \<longrightarrow>
      New rt fn sz w =
        (Returns (Some \<lparr>m = False,
                resources = \<lparr>chan_buf = [], chan_cap = unat sz, chan_closed = False\<rparr>,
                factory = fn, closed = False\<rparr>, None), w) \<and>
      0 < unat sz) \<and>
   (0 < sz \<and> makechan_panics rt sz \<longrightarrow>
      New rt fn sz w = (Panics ''makechan: size out of range'', w))"
  by (auto simp: New_def makechan_def make_chan_def unat_gt_0 word_neq_0_conv)

text \<open>An instance on linux/amd64: size 2 gives an empty pool of capacity 2, size 0
  the error.\<close>

theorem New_size_witness:
  "(0::64 word) < 2 \<and> \<not> makechan_panics linux_amd64 (2 :: 64 word) \<and>
   New linux_amd64 counting_factory (2::64 word) world0 =
     (Returns (Some (pool_of counting_factory [] 2 False), None), world0) \<and>
   New linux_amd64 counting_factory (0::64 word) world0 =
     (Returns (None, Some (errors_New ''size value too small'')), world0)"
proof -
  have pos: "(0::64 word) < 2" by simp
  have ok: "\<not> makechan_panics linux_amd64 (2 :: 64 word)"
    by (rule linux_amd64_examples)
  from New_size [of linux_amd64 counting_factory "2::64 word" world0] pos ok
  have a: "New linux_amd64 counting_factory (2::64 word) world0 =
     (Returns (Some (pool_of counting_factory [] 2 False), None), world0)"
    by (simp add: pool_of_def)
  from New_size [of linux_amd64 counting_factory "0::64 word" world0]
  have b: "New linux_amd64 counting_factory (0::64 word) world0 =
     (Returns (None, Some (errors_New ''size value too small'')), world0)"
    by (metis prod.collapse order_refl)
  from pos ok a b show ?thesis by blast
qed

subsection \<open>Acquire\<close>

text \<open>
  C3. On an open pool, \<^verbatim>\<open>Acquire\<close> with a non-empty idle buffer removes the oldest
  buffered resource and returns it with a nil error, without calling the factory;
  with an empty buffer it calls the factory once, synchronously, and returns exactly
  the pair the factory returned, resource or error, leaving the pool as it was.
  \<^verbatim>\<open>Acquire\<close> never blocks: it returns in either case, also while another caller
  holds the mutex.
\<close>

theorem Acquire_open_pool:
  assumes "wf_pool p" and "\<not> closed p"
  shows "(\<forall>x xs. chan_buf (resources p) = x # xs \<longrightarrow>
            Acquire p w =
              (Returns (Some x, None), p\<lparr>resources := (resources p)\<lparr>chan_buf := xs\<rparr>\<rparr>,
               log_Println ''Acquire: Shared Resource'' w)) \<and>
         (chan_buf (resources p) = [] \<longrightarrow>
            Acquire p w =
              (Returns (fst (factory p (fstate w))), p,
               \<lparr>trace = trace w @ [LogLine ''Acquire: New Resource'', FactoryCall],
                fstate = snd (factory p (fstate w))\<rparr>)) \<and>
         (\<exists>res. fst (Acquire p w) = Returns res) \<and>
         (\<exists>res. fst (Acquire (p\<lparr>m := True\<rparr>) w) = Returns res)"
proof -
  from assms have o: "\<not> chan_closed (resources p)"
    by (simp add: wf_pool_def)
  show ?thesis
    using o Acquire_returns [of p w] Acquire_returns [of "p\<lparr>m := True\<rparr>" w]
    by (auto simp: Acquire_nonempty Acquire_open_empty)
qed

text \<open>Instances: a buffered resource is handed out; on an empty buffer the failing
  factory's error comes back unchanged.\<close>

theorem Acquire_open_pool_witness:
  "wf_pool (pool_of failing_factory [7, 8] 2 False) \<and>
   \<not> closed (pool_of failing_factory [7, 8] 2 False) \<and>
   Acquire (pool_of failing_factory [7, 8] 2 False) world0 =
     (Returns (Some 7, None), pool_of failing_factory [8] 2 False,
      \<lparr>trace = [LogLine ''Acquire: Shared Resource''], fstate = 100\<rparr>) \<and>
   wf_pool (pool_of failing_factory [] 2 False) \<and>
   \<not> closed (pool_of failing_factory [] 2 False) \<and>
   Acquire (pool_of failing_factory [] 2 False) world0 =
     (Returns (None, Some (errors_New ''dial failed'')), pool_of failing_factory [] 2 False,
      \<lparr>trace = [LogLine ''Acquire: New Resource'', FactoryCall], fstate = 101\<rparr>)"
proof -
  have wf1: "wf_pool (pool_of failing_factory [7, 8] 2 False)"
    and wf2: "wf_pool (pool_of failing_factory [] 2 False)"
    by (simp_all add: wf_pool_of)
  have o1: "\<not> closed (pool_of failing_factory [7, 8] 2 False)"
    and o2: "\<not> closed (pool_of failing_factory [] 2 False)"
    by (simp_all add: pool_of_def)
  from Acquire_open_pool [OF wf1 o1, of world0]
  have "Acquire (pool_of failing_factory [7, 8] 2 False) world0 =
     (Returns (Some 7, None), pool_of failing_factory [8] 2 False,
      \<lparr>trace = [LogLine ''Acquire: Shared Resource''], fstate = 100\<rparr>)"
    by (simp add: pool_of_def world0_def log_Println_def)
  moreover from Acquire_open_pool [OF wf2 o2, of world0]
  have "Acquire (pool_of failing_factory [] 2 False) world0 =
     (Returns (None, Some (errors_New ''dial failed'')), pool_of failing_factory [] 2 False,
      \<lparr>trace = [LogLine ''Acquire: New Resource'', FactoryCall], fstate = 101\<rparr>)"
    by (simp add: pool_of_def world0_def failing_factory_def)
  ultimately show ?thesis using wf1 wf2 o1 o2 by simp
qed

text \<open>
  C2. On a pool at rest whose closed flag is set, that is, after \<^verbatim>\<open>Close\<close> has
  completed, the idle buffer is empty and \<^verbatim>\<open>Acquire\<close> returns \<^verbatim>\<open>ErrPoolClosed\<close> with
  a nil resource; the factory is not invoked and its state is untouched. The receive
  on the closed, empty channel yields the zero value with \<open>ok = false\<close>, whereas on an
  open, empty channel it is not ready and \<^verbatim>\<open>Acquire\<close> calls the factory: the two
  cases are told apart.
\<close>

theorem Acquire_closed_pool:
  assumes "wf_pool p" and "closed p"
  shows "Acquire p w =
           (Returns (None, Some ErrPoolClosed), p, log_Println ''Acquire: Shared Resource'' w) \<and>
         factory_calls (trace (snd (snd (Acquire p w)))) = factory_calls (trace w) \<and>
         fstate (snd (snd (Acquire p w))) = fstate w \<and>
         chan_recv (resources p) = (Received None False, resources p) \<and>
         (\<forall>q. wf_pool q \<and> \<not> closed q \<and> chan_buf (resources q) = [] \<longrightarrow>
              chan_recv (resources q) = (RecvNotReady, resources q) \<and>
              factory_calls (trace (snd (snd (Acquire q w)))) = Suc (factory_calls (trace w)))"
proof -
  from assms have e: "chan_buf (resources p) = []" and c: "chan_closed (resources p)"
    by (simp_all add: wf_pool_def)
  have eq: "Acquire p w =
           (Returns (None, Some ErrPoolClosed), p, log_Println ''Acquire: Shared Resource'' w)"
    by (rule Acquire_closed_empty [OF e c])
  have f: "factory_calls (trace (snd (snd (Acquire p w)))) = factory_calls (trace w)"
    and fs: "fstate (snd (snd (Acquire p w))) = fstate w"
    by (simp_all add: eq log_Println_def factory_calls_def)
  have r: "chan_recv (resources p) = (Received None False, resources p)"
    using e c by (simp add: chan_recv_def)
  have o: "chan_recv (resources q) = (RecvNotReady, resources q) \<and>
           factory_calls (trace (snd (snd (Acquire q w)))) = Suc (factory_calls (trace w))"
    if "wf_pool q \<and> \<not> closed q \<and> chan_buf (resources q) = []" for q
  proof -
    from that have qe: "chan_buf (resources q) = []" and qo: "\<not> chan_closed (resources q)"
      by (simp_all add: wf_pool_def)
    show ?thesis
      using qe qo by (simp add: Acquire_open_empty [OF qe qo] chan_recv_def factory_calls_def)
  qed
  from eq f fs r o show ?thesis by blast
qed

text \<open>An instance: \<^verbatim>\<open>Close\<close> on a pool holding two resources, then \<^verbatim>\<open>Acquire\<close>.\<close>

theorem Acquire_closed_pool_witness:
  "wf_pool (pool_of counting_factory [] 2 True) \<and>
   closed (pool_of counting_factory [] 2 True) \<and>
   Close close_ok (pool_of counting_factory [1, 2] 2 False) world0 =
     (Returns (), pool_of counting_factory [] 2 True,
      \<lparr>trace = [CloseCall 1, CloseCall 2], fstate = 100\<rparr>) \<and>
   Acquire (pool_of counting_factory [] 2 True)
       \<lparr>trace = [CloseCall 1, CloseCall 2], fstate = 100\<rparr> =
     (Returns (None, Some ErrPoolClosed), pool_of counting_factory [] 2 True,
      \<lparr>trace = [CloseCall 1, CloseCall 2, LogLine ''Acquire: Shared Resource''], fstate = 100\<rparr>)"
proof -
  have wf: "wf_pool (pool_of counting_factory [] 2 True)"
    by (simp add: wf_pool_of)
  have cl: "closed (pool_of counting_factory [] 2 True)"
    by (simp add: pool_of_def)
  have "Close close_ok (pool_of counting_factory [1, 2] 2 False) world0 =
     (Returns (), pool_of counting_factory [] 2 True,
      \<lparr>trace = [CloseCall 1, CloseCall 2], fstate = 100\<rparr>)"
    by (simp add: Close_open pool_of_def world0_def)
  moreover from Acquire_closed_pool [OF wf cl, of "\<lparr>trace = [CloseCall 1, CloseCall 2], fstate = 100\<rparr>"]
  have "Acquire (pool_of counting_factory [] 2 True)
       \<lparr>trace = [CloseCall 1, CloseCall 2], fstate = 100\<rparr> =
     (Returns (None, Some ErrPoolClosed), pool_of counting_factory [] 2 True,
      \<lparr>trace = [CloseCall 1, CloseCall 2, LogLine ''Acquire: Shared Resource''], fstate = 100\<rparr>)"
    by (simp add: log_Println_def)
  ultimately show ?thesis using wf cl by simp
qed

text \<open>
  C9, as the claim states it, fails: the channel is a first-in first-out queue, so
  after acquiring resource 1 from a buffer holding 1 and 2 and releasing it again,
  the next \<^verbatim>\<open>Acquire\<close> returns resource 2, not the instance that was just released.
\<close>

theorem reacquire_counterexample:
  "wf_pool (pool_of counting_factory [1, 2] 2 False) \<and>
   \<not> closed (pool_of counting_factory [1, 2] 2 False) \<and>
   Acquire (pool_of counting_factory [1, 2] 2 False) world0 =
     (Returns (Some 1, None), pool_of counting_factory [2] 2 False,
      \<lparr>trace = [LogLine ''Acquire: Shared Resource''], fstate = 100\<rparr>) \<and>
   length (chan_buf (resources (pool_of counting_factory [2] 2 False))) <
     chan_cap (resources (pool_of counting_factory [2] 2 False)) \<and>
   Release close_ok (pool_of counting_factory [2] 2 False) 1
       \<lparr>trace = [LogLine ''Acquire: Shared Resource''], fstate = 100\<rparr> =
     (Returns (), pool_of counting_factory [2, 1] 2 False,
      \<lparr>trace = [LogLine ''Acquire: Shared Resource'', LogLine ''Release: In Queue''],
       fstate = 100\<rparr>) \<and>
   Acquire (pool_of counting_factory [2, 1] 2 False)
       \<lparr>trace = [LogLine ''Acquire: Shared Resource'', LogLine ''Release: In Queue''],
        fstate = 100\<rparr> =
     (Returns (Some 2, None), pool_of counting_factory [1] 2 False,
      \<lparr>trace = [LogLine ''Acquire: Shared Resource'', LogLine ''Release: In Queue'',
                LogLine ''Acquire: Shared Resource''], fstate = 100\<rparr>) \<and>
   (Some 2, None) \<noteq> (Some (1::nat), None :: error option)"
  by (simp add: wf_pool_of)
     (simp add: pool_of_def world0_def Acquire_nonempty Release_enqueue log_Println_def)

text \<open>
  C9, amended. On an open pool, when \<^verbatim>\<open>Acquire\<close> has returned a resource \<open>r\<close>, the
  buffer has spare capacity, \<^verbatim>\<open>Release(r)\<close> enqueues \<open>r\<close> at the back, and the next
  \<^verbatim>\<open>Acquire\<close> takes the reuse path: it does not invoke the factory and returns the
  oldest resource of the buffer. That resource is \<open>r\<close> itself whenever the buffer was
  empty when \<open>r\<close> was released, and the pool is then back in the state it had before
  the release.
\<close>

theorem reacquire_after_release:
  assumes "wf_pool p" and "\<not> closed p"
    and "Acquire p w = (Returns (Some r, e), p1, w1)"
    and "Release cl p1 r w1 = (out2, p2, w2)"
    and "Acquire p2 w2 = (out3, p3, w3)"
  shows "length (chan_buf (resources p1)) < chan_cap (resources p1) \<and>
         chan_buf (resources p2) = chan_buf (resources p1) @ [r] \<and>
         out3 = Returns (Some (hd (chan_buf (resources p1) @ [r])), None) \<and>
         factory_calls (trace w3) = factory_calls (trace w1) \<and>
         fstate w3 = fstate w1 \<and>
         (chan_buf (resources p1) = [] \<longrightarrow> out3 = Returns (Some r, None) \<and> p3 = p1)"
proof -
  from assms(1,2) have o: "\<not> chan_closed (resources p)" and f: "\<not> m p"
    and le: "length (chan_buf (resources p)) \<le> chan_cap (resources p)"
    and pos: "0 < chan_cap (resources p)"
    by (simp_all add: wf_pool_def)
  have p1: "\<not> m p1 \<and> \<not> closed p1 \<and> \<not> chan_closed (resources p1) \<and>
            length (chan_buf (resources p1)) < chan_cap (resources p1)"
  proof (cases "chan_buf (resources p)")
    case Nil
    with assms(3) o f assms(2) pos show ?thesis
      by (simp add: Acquire_open_empty)
  next
    case (Cons x xs)
    with assms(3) o f assms(2) le show ?thesis
      by (auto simp: Acquire_nonempty)
  qed
  then have rel: "Release cl p1 r w1 =
      (Returns (), p1\<lparr>resources := (resources p1)\<lparr>chan_buf := chan_buf (resources p1) @ [r]\<rparr>\<rparr>,
       log_Println ''Release: In Queue'' w1)"
    by (simp add: Release_enqueue)
  with assms(4) have p2: "p2 = p1\<lparr>resources := (resources p1)\<lparr>chan_buf := chan_buf (resources p1) @ [r]\<rparr>\<rparr>"
    and w2: "w2 = log_Println ''Release: In Queue'' w1"
    by simp_all
  obtain y ys where buf2: "chan_buf (resources p2) = y # ys"
    and y: "y = hd (chan_buf (resources p1) @ [r])"
    and ys: "ys = tl (chan_buf (resources p1) @ [r])"
    by (cases "chan_buf (resources p1) @ [r]") (simp_all add: p2)
  from Acquire_nonempty [OF buf2, of w2] assms(5)
  have out3: "out3 = Returns (Some y, None)"
    and p3: "p3 = p2\<lparr>resources := (resources p2)\<lparr>chan_buf := ys\<rparr>\<rparr>"
    and w3: "w3 = log_Println ''Acquire: Shared Resource'' w2"
    by simp_all
  have fc: "factory_calls (trace w3) = factory_calls (trace w1)" and fs: "fstate w3 = fstate w1"
    by (simp_all add: w3 w2 log_Println_def factory_calls_def)
  have same: "out3 = Returns (Some r, None) \<and> p3 = p1" if "chan_buf (resources p1) = []"
    using that out3 y ys p3 p2 by simp
  from p1 p2 out3 y fc fs same show ?thesis by simp
qed

text \<open>An instance: a manufactured resource is released into the empty buffer and
  acquired again.\<close>

theorem reacquire_after_release_witness:
  "wf_pool (pool_of counting_factory [] 2 False) \<and>
   \<not> closed (pool_of counting_factory [] 2 False) \<and>
   Acquire (pool_of counting_factory [] 2 False) world0 =
     (Returns (Some 100, None), pool_of counting_factory [] 2 False,
      \<lparr>trace = [LogLine ''Acquire: New Resource'', FactoryCall], fstate = 101\<rparr>) \<and>
   Release close_ok (pool_of counting_factory [] 2 False) 100
       \<lparr>trace = [LogLine ''Acquire: New Resource'', FactoryCall], fstate = 101\<rparr> =
     (Returns (), pool_of counting_factory [100] 2 False,
      \<lparr>trace = [LogLine ''Acquire: New Resource'', FactoryCall, LogLine ''Release: In Queue''],
       fstate = 101\<rparr>) \<and>
   fst (Acquire (pool_of counting_factory [100] 2 False)
      \<lparr>trace = [LogLine ''Acquire: New Resource'', FactoryCall, LogLine ''Release: In Queue''],
       fstate = 101\<rparr>) = Returns (Some 100, None)"
proof -
  let ?p = "pool_of counting_factory [] 2 False"
  let ?w1 = "\<lparr>trace = [LogLine ''Acquire: New Resource'', FactoryCall], fstate = 101\<rparr>
               :: (nat, nat) world"
  let ?w2 = "\<lparr>trace = [LogLine ''Acquire: New Resource'', FactoryCall,
               LogLine ''Release: In Queue''], fstate = 101\<rparr> :: (nat, nat) world"
  have wf: "wf_pool ?p" by (simp add: wf_pool_of)
  have o: "\<not> closed ?p" by (simp add: pool_of_def)
  have a1: "Acquire ?p world0 = (Returns (Some 100, None), ?p, ?w1)"
    by (simp add: pool_of_def world0_def Acquire_open_empty counting_factory_def)
  have r: "Release close_ok ?p 100 ?w1 = (Returns (), pool_of counting_factory [100] 2 False, ?w2)"
    by (simp add: pool_of_def Release_enqueue log_Println_def)
  obtain out3 p3 w3 where a2: "Acquire (pool_of counting_factory [100] 2 False) ?w2 = (out3, p3, w3)"
    by (cases "Acquire (pool_of counting_factory [100] 2 False) ?w2") blast
  from reacquire_after_release [OF wf o a1 r a2]
  have "out3 = Returns (Some 100, None)"
    by (simp add: pool_of_def)
  with a2 have "fst (Acquire (pool_of counting_factory [100] 2 False) ?w2) = Returns (Some 100, None)"
    by simp
  with wf o a1 r show ?thesis by blast
qed

subsection \<open>Release\<close>

text \<open>
  C4. On a pool whose closed flag is set (and whose mutex is free, so that the call
  gets past \<^verbatim>\<open>Lock\<close>), \<^verbatim>\<open>Release(r)\<close> invokes \<open>r\<close>'s \<^verbatim>\<open>Close\<close> exactly once, invokes
  no other resource's \<^verbatim>\<open>Close\<close>, and returns with the pool unchanged: \<open>r\<close> is not put
  into the idle buffer.
\<close>

theorem Release_closed_pool:
  assumes "closed p" and "\<not> m p"
  shows "Release cl p r w = (Returns (), p, w\<lparr>trace := trace w @ [CloseCall r]\<rparr>) \<and>
         close_calls (trace (snd (snd (Release cl p r w)))) r = Suc (close_calls (trace w) r) \<and>
         (\<forall>x. x \<noteq> r \<longrightarrow>
              close_calls (trace (snd (snd (Release cl p r w)))) x = close_calls (trace w) x) \<and>
         resources (fst (snd (Release cl p r w))) = resources p"
  using assms by (simp add: Release_closed_flag close_calls_def)

text \<open>An instance, with a resource whose \<^verbatim>\<open>Close\<close> fails.\<close>

theorem Release_closed_pool_witness:
  "closed (pool_of counting_factory [] 2 True) \<and>
   \<not> m (pool_of counting_factory [] 2 True) \<and>
   Release close_odd_fails (pool_of counting_factory [] 2 True) 7 world0 =
     (Returns (), pool_of counting_factory [] 2 True, \<lparr>trace = [CloseCall 7], fstate = 100\<rparr>) \<and>
   close_calls [CloseCall (7::nat)] 7 = 1"
proof -
  have c: "closed (pool_of counting_factory [] 2 True)"
    and f: "\<not> m (pool_of counting_factory [] 2 True)"
    by (simp_all add: pool_of_def)
  from Release_closed_pool [OF c f, of close_odd_fails 7 world0]
  have "Release close_odd_fails (pool_of counting_factory [] 2 True) 7 world0 =
     (Returns (), pool_of counting_factory [] 2 True, \<lparr>trace = [CloseCall 7], fstate = 100\<rparr>)"
    by (simp add: world0_def)
  moreover have "close_calls [CloseCall (7::nat)] 7 = 1"
    by (simp add: close_calls_def)
  ultimately show ?thesis using c f by simp
qed

text \<open>
  C5. On an open pool, \<^verbatim>\<open>Release(r)\<close> enqueues \<open>r\<close> at the back of the idle buffer when
  the buffer has spare capacity, and calls no \<^verbatim>\<open>Close\<close>; when the buffer is at
  capacity it invokes \<open>r\<close>'s \<^verbatim>\<open>Close\<close> exactly once and leaves the pool unchanged, so
  the buffer keeps exactly capacity-many resources. A pool at rest is in one of the
  two cases.
\<close>

theorem Release_open_pool:
  assumes "wf_pool p" and "\<not> closed p"
  shows "(length (chan_buf (resources p)) < chan_cap (resources p) \<longrightarrow>
            Release cl p r w =
              (Returns (),
               p\<lparr>resources := (resources p)\<lparr>chan_buf := chan_buf (resources p) @ [r]\<rparr>\<rparr>,
               log_Println ''Release: In Queue'' w) \<and>
            (\<forall>x. close_calls (trace (snd (snd (Release cl p r w)))) x =
                   close_calls (trace w) x)) \<and>
         (length (chan_buf (resources p)) = chan_cap (resources p) \<longrightarrow>
            Release cl p r w =
              (Returns (), p,
               w\<lparr>trace := trace w @ [LogLine ''Release: Closing'', CloseCall r]\<rparr>) \<and>
            close_calls (trace (snd (snd (Release cl p r w)))) r =
              Suc (close_calls (trace w) r) \<and>
            length (chan_buf (resources (fst (snd (Release cl p r w))))) =
              chan_cap (resources p)) \<and>
         length (chan_buf (resources p)) \<le> chan_cap (resources p)"
proof -
  from assms have f: "\<not> m p" and o: "\<not> chan_closed (resources p)"
    and le: "length (chan_buf (resources p)) \<le> chan_cap (resources p)"
    by (simp_all add: wf_pool_def)
  have a: "Release cl p r w =
              (Returns (),
               p\<lparr>resources := (resources p)\<lparr>chan_buf := chan_buf (resources p) @ [r]\<rparr>\<rparr>,
               log_Println ''Release: In Queue'' w) \<and>
            (\<forall>x. close_calls (trace (snd (snd (Release cl p r w)))) x =
                   close_calls (trace w) x)"
    if "length (chan_buf (resources p)) < chan_cap (resources p)"
    using Release_enqueue [OF f assms(2) o that, of cl r w]
    by (simp add: log_Println_def close_calls_def)
  have b: "Release cl p r w =
              (Returns (), p,
               w\<lparr>trace := trace w @ [LogLine ''Release: Closing'', CloseCall r]\<rparr>) \<and>
            close_calls (trace (snd (snd (Release cl p r w)))) r =
              Suc (close_calls (trace w) r) \<and>
            length (chan_buf (resources (fst (snd (Release cl p r w))))) =
              chan_cap (resources p)"
    if "length (chan_buf (resources p)) = chan_cap (resources p)"
  proof -
    from that have "\<not> length (chan_buf (resources p)) < chan_cap (resources p)" by simp
    from Release_full [OF f assms(2) o this, of cl r w] that show ?thesis
      by (simp add: close_calls_def)
  qed
  from a b le show ?thesis by blast
qed

text \<open>The instance of the claim: capacity 2 and three releases in a row; the buffer
  holds resources 1 and 2, and resource 3 is closed once.\<close>

theorem Release_open_pool_witness:
  "wf_pool (pool_of counting_factory [] 2 False) \<and>
   \<not> closed (pool_of counting_factory [] 2 False) \<and>
   Release close_ok (pool_of counting_factory [] 2 False) 1 world0 =
     (Returns (), pool_of counting_factory [1] 2 False,
      \<lparr>trace = [LogLine ''Release: In Queue''], fstate = 100\<rparr>) \<and>
   Release close_ok (pool_of counting_factory [1] 2 False) 2
       \<lparr>trace = [LogLine ''Release: In Queue''], fstate = 100\<rparr> =
     (Returns (), pool_of counting_factory [1, 2] 2 False,
      \<lparr>trace = [LogLine ''Release: In Queue'', LogLine ''Release: In Queue''], fstate = 100\<rparr>) \<and>
   Release close_ok (pool_of counting_factory [1, 2] 2 False) 3
       \<lparr>trace = [LogLine ''Release: In Queue'', LogLine ''Release: In Queue''], fstate = 100\<rparr> =
     (Returns (), pool_of counting_factory [1, 2] 2 False,
      \<lparr>trace = [LogLine ''Release: In Queue'', LogLine ''Release: In Queue'',
                LogLine ''Release: Closing'', CloseCall 3], fstate = 100\<rparr>) \<and>
   close_calls [LogLine ''Release: In Queue'', LogLine ''Release: In Queue'',
                LogLine ''Release: Closing'', CloseCall (3::nat)] 3 = 1"
proof -
  let ?w1 = "\<lparr>trace = [LogLine ''Release: In Queue''], fstate = 100\<rparr> :: (nat, nat) world"
  let ?w2 = "\<lparr>trace = [LogLine ''Release: In Queue'', LogLine ''Release: In Queue''],
              fstate = 100\<rparr> :: (nat, nat) world"
  have wf0: "wf_pool (pool_of counting_factory [] 2 False)"
    and wf1: "wf_pool (pool_of counting_factory [1] 2 False)"
    and wf2: "wf_pool (pool_of counting_factory [1, 2] 2 False)"
    by (simp_all add: wf_pool_of)
  have o0: "\<not> closed (pool_of counting_factory [] 2 False)"
    and o1: "\<not> closed (pool_of counting_factory [1] 2 False)"
    and o2: "\<not> closed (pool_of counting_factory [1, 2] 2 False)"
    by (simp_all add: pool_of_def)
  from Release_open_pool [OF wf0 o0, of close_ok 1 world0]
  have r1: "Release close_ok (pool_of counting_factory [] 2 False) 1 world0 =
     (Returns (), pool_of counting_factory [1] 2 False, ?w1)"
    by (simp add: pool_of_def world0_def log_Println_def)
  from Release_open_pool [OF wf1 o1, of close_ok 2 ?w1]
  have r2: "Release close_ok (pool_of counting_factory [1] 2 False) 2 ?w1 =
     (Returns (), pool_of counting_factory [1, 2] 2 False, ?w2)"
    by (simp add: pool_of_def log_Println_def)
  from Release_open_pool [OF wf2 o2, of close_ok 3 ?w2]
  have r3: "Release close_ok (pool_of counting_factory [1, 2] 2 False) 3 ?w2 =
     (Returns (), pool_of counting_factory [1, 2] 2 False,
      \<lparr>trace = [LogLine ''Release: In Queue'', LogLine ''Release: In Queue'',
                LogLine ''Release: Closing'', CloseCall 3], fstate = 100\<rparr>)"
    by (simp add: pool_of_def)
  have c: "close_calls [LogLine ''Release: In Queue'', LogLine ''Release: In Queue'',
                LogLine ''Release: Closing'', CloseCall (3::nat)] 3 = 1"
    by (simp add: close_calls_def)
  from wf0 o0 r1 r2 r3 c show ?thesis by blast
qed

subsection \<open>Close\<close>

text \<open>
  C1. On an open pool, \<^verbatim>\<open>Close\<close> returns with the closed flag set, the channel
  closed and the idle buffer empty, after invoking \<^verbatim>\<open>Close\<close> on the idle resources
  in buffer order, once per buffered entry, hence exactly once on every idle resource
  when no resource sits in the buffer twice. The channel is marked closed before the
  drain: three statements after taking the mutex the caller stands at the \<^verbatim>\<open>range\<close>
  loop with the flag set, the channel closed, the buffer still full and no \<^verbatim>\<open>Close\<close>
  invoked yet, and the remaining statements end in the result of \<^verbatim>\<open>Close\<close>.
\<close>

theorem Close_open_pool:
  assumes "wf_pool p" and "\<not> closed p"
  shows "Close cl p w =
           (Returns (),
            p\<lparr>closed := True,
              resources := \<lparr>chan_buf = [], chan_cap = chan_cap (resources p), chan_closed = True\<rparr>\<rparr>,
            w\<lparr>trace := trace w @ map CloseCall (chan_buf (resources p))\<rparr>) \<and>
         run cl [LockClose, Advance, Advance, Advance] (Idle, p, w) =
           Some (CloseRange,
                 p\<lparr>m := True, closed := True, resources := (resources p)\<lparr>chan_closed := True\<rparr>\<rparr>,
                 w) \<and>
         run cl (LockClose # replicate (4 + length (chan_buf (resources p))) Advance) (Idle, p, w) =
           Some (Idle, snd (Close cl p w)) \<and>
         (\<forall>r. close_calls (trace (snd (snd (Close cl p w)))) r =
                close_calls (trace w) r + count_list (chan_buf (resources p)) r) \<and>
         (distinct (chan_buf (resources p)) \<longrightarrow>
            (\<forall>r \<in> set (chan_buf (resources p)).
               close_calls (trace (snd (snd (Close cl p w)))) r = close_calls (trace w) r + 1))"
proof -
  from assms have free: "\<not> m p" and chan_open: "\<not> chan_closed (resources p)"
    by (simp_all add: wf_pool_def)
  have eq: "Close cl p w =
           (Returns (),
            p\<lparr>closed := True,
              resources := \<lparr>chan_buf = [], chan_cap = chan_cap (resources p), chan_closed = True\<rparr>\<rparr>,
            w\<lparr>trace := trace w @ map CloseCall (chan_buf (resources p))\<rparr>)"
    using Close_open [OF free assms(2) chan_open, of cl w] by simp
  have sched: "run cl [LockClose, Advance, Advance, Advance] (Idle, p, w) =
           Some (CloseRange,
                 p\<lparr>m := True, closed := True, resources := (resources p)\<lparr>chan_closed := True\<rparr>\<rparr>,
                 w)"
    using free assms(2) chan_open by (simp add: chan_close_def)
  have whole: "run cl (LockClose # replicate (4 + length (chan_buf (resources p))) Advance)
                 (Idle, p, w) = Some (Idle, snd (Close cl p w))"
    using Close_as_run [OF free, of cl w] assms(2) chan_open by simp
  have cnt: "close_calls (trace (snd (snd (Close cl p w)))) r =
               close_calls (trace w) r + count_list (chan_buf (resources p)) r" for r
    by (simp add: eq close_calls_append)
  have once: "close_calls (trace (snd (snd (Close cl p w)))) r = close_calls (trace w) r + 1"
    if "distinct (chan_buf (resources p))" and "r \<in> set (chan_buf (resources p))" for r
    using that by (simp add: cnt count_list_distinct)
  from eq sched whole cnt once show ?thesis by blast
qed

text \<open>An instance: two idle resources, the first of which fails to close.\<close>

theorem Close_open_pool_witness:
  "wf_pool (pool_of counting_factory [1, 2] 2 False) \<and>
   \<not> closed (pool_of counting_factory [1, 2] 2 False) \<and>
   Close close_odd_fails (pool_of counting_factory [1, 2] 2 False) world0 =
     (Returns (), pool_of counting_factory [] 2 True,
      \<lparr>trace = [CloseCall 1, CloseCall 2], fstate = 100\<rparr>) \<and>
   close_calls (trace (snd (snd (Close close_odd_fails
       (pool_of counting_factory [1, 2] 2 False) world0)))) 2 = 1"
proof -
  have wf: "wf_pool (pool_of counting_factory [1, 2] 2 False)"
    by (simp add: wf_pool_of)
  have op: "\<not> closed (pool_of counting_factory [1, 2] 2 False)"
    by (simp add: pool_of_def)
  have d: "distinct (chan_buf (resources (pool_of counting_factory [1, 2] 2 False)))"
    and i: "2 \<in> set (chan_buf (resources (pool_of counting_factory [1, 2] 2 False)))"
    by (simp_all add: pool_of_def)
  note inst = Close_open_pool [OF wf op, of close_odd_fails world0]
  from inst have "Close close_odd_fails (pool_of counting_factory [1, 2] 2 False) world0 =
     (Returns (), pool_of counting_factory [] 2 True,
      \<lparr>trace = [CloseCall 1, CloseCall 2], fstate = 100\<rparr>)"
    by (simp add: pool_of_def world0_def)
  moreover from inst d i have "close_calls (trace (snd (snd (Close close_odd_fails
       (pool_of counting_factory [1, 2] 2 False) world0)))) 2 = 1"
    by (simp add: pool_of_def world0_def close_calls_def)
  ultimately show ?thesis using wf op by simp
qed

text \<open>
  C6. \<^verbatim>\<open>Close\<close> is idempotent. On a pool at rest whose closed flag is set, \<^verbatim>\<open>Close\<close>
  returns at once and changes neither the pool nor the world: no resource's \<^verbatim>\<open>Close\<close>
  is invoked, the flag stays set, the buffer stays empty. From any pool at rest, a
  second \<^verbatim>\<open>Close\<close> right after the first leaves the first one's result as it is.
\<close>

theorem Close_idempotent:
  assumes "wf_pool p"
  shows "(closed p \<longrightarrow> Close cl p w = (Returns (), p, w) \<and> chan_buf (resources p) = []) \<and>
         Close cl (fst (snd (Close cl p w))) (snd (snd (Close cl p w))) =
           (Returns (), snd (Close cl p w)) \<and>
         closed (fst (snd (Close cl p w))) \<and>
         chan_buf (resources (fst (snd (Close cl p w)))) = []"
proof -
  from assms have f: "\<not> m p" by (simp add: wf_pool_def)
  obtain out p1 w1 where c: "Close cl p w = (out, p1, w1)"
    by (cases "Close cl p w") blast
  from wf_pool_Close [OF assms c] have wf1: "wf_pool p1" and c1: "closed p1"
    by simp_all
  then have f1: "\<not> m p1" and e1: "chan_buf (resources p1) = []"
    by (simp_all add: wf_pool_def)
  have a: "Close cl p w = (Returns (), p, w) \<and> chan_buf (resources p) = []" if "closed p"
    using that f assms by (simp add: Close_closed_flag wf_pool_def)
  have b: "Close cl p1 w1 = (Returns (), p1, w1)"
    by (rule Close_closed_flag [OF f1 c1])
  from a b c c1 e1 show ?thesis by simp
qed

text \<open>An instance: closing twice a pool that holds two resources.\<close>

theorem Close_idempotent_witness:
  "wf_pool (pool_of counting_factory [1, 2] 2 False) \<and>
   Close close_ok (pool_of counting_factory [1, 2] 2 False) world0 =
     (Returns (), pool_of counting_factory [] 2 True,
      \<lparr>trace = [CloseCall 1, CloseCall 2], fstate = 100\<rparr>) \<and>
   Close close_ok (pool_of counting_factory [] 2 True)
       \<lparr>trace = [CloseCall 1, CloseCall 2], fstate = 100\<rparr> =
     (Returns (), pool_of counting_factory [] 2 True,
      \<lparr>trace = [CloseCall 1, CloseCall 2], fstate = 100\<rparr>)"
proof -
  have wf: "wf_pool (pool_of counting_factory [1, 2] 2 False)"
    by (simp add: wf_pool_of)
  have c: "Close close_ok (pool_of counting_factory [1, 2] 2 False) world0 =
     (Returns (), pool_of counting_factory [] 2 True,
      \<lparr>trace = [CloseCall 1, CloseCall 2], fstate = 100\<rparr>)"
    by (simp add: Close_open pool_of_def world0_def)
  from Close_idempotent [OF wf, of close_ok world0]
  have "Close close_ok (pool_of counting_factory [] 2 True)
       \<lparr>trace = [CloseCall 1, CloseCall 2], fstate = 100\<rparr> =
     (Returns (), pool_of counting_factory [] 2 True,
      \<lparr>trace = [CloseCall 1, CloseCall 2], fstate = 100\<rparr>)"
    unfolding c by simp
  with wf c show ?thesis by blast
qed

subsection \<open>Disposal errors\<close>

text \<open>
  C8. An error returned by a resource's \<^verbatim>\<open>Close\<close> never reaches the pool's caller.
  \<^verbatim>\<open>Release\<close> and \<^verbatim>\<open>Close\<close> have no error result (their outcome carries \<open>unit\<close>), and
  what they do is the same whatever the resources' \<^verbatim>\<open>Close\<close> return: the same as if
  every \<^verbatim>\<open>Close\<close> succeeded. On a pool at rest both return normally, and the drain
  of \<^verbatim>\<open>Close\<close> invokes \<^verbatim>\<open>Close\<close> on every idle resource, in order, whichever of them
  fail.
\<close>

theorem disposal_errors_absorbed:
  "Release cl p r w = Release (\<lambda>x. None) p r w \<and>
   Close cl p w = Close (\<lambda>x. None) p w \<and>
   (wf_pool p \<longrightarrow>
      fst (Release cl p r w) = Returns () \<and> fst (Close cl p w) = Returns ()) \<and>
   (wf_pool p \<and> \<not> closed p \<longrightarrow>
      trace (snd (snd (Close cl p w))) = trace w @ map CloseCall (chan_buf (resources p)))"
proof -
  have a: "fst (Release cl p r w) = Returns () \<and> fst (Close cl p w) = Returns ()" if "wf_pool p"
    using wf_pool_Release [OF that, of cl r w] wf_pool_Close [OF that, of cl w]
    by (metis prod.collapse)
  have b: "trace (snd (snd (Close cl p w))) = trace w @ map CloseCall (chan_buf (resources p))"
    if "wf_pool p \<and> \<not> closed p"
    using that by (simp add: Close_open wf_pool_def)
  from a b Release_closer [of cl p r w] Close_closer [of cl p w] show ?thesis
    by blast
qed

text \<open>An instance: resource 1 fails to close, and resources 2 and 3 are closed all the
  same.\<close>

theorem disposal_errors_absorbed_witness:
  "close_odd_fails 1 = Some (errors_New ''close failed'') \<and>
   wf_pool (pool_of counting_factory [1, 2, 3] 3 False) \<and>
   \<not> closed (pool_of counting_factory [1, 2, 3] 3 False) \<and>
   fst (Release close_odd_fails (pool_of counting_factory [1, 2, 3] 3 False) 5 world0) =
     Returns () \<and>
   fst (Close close_odd_fails (pool_of counting_factory [1, 2, 3] 3 False) world0) =
     Returns () \<and>
   trace (snd (snd (Close close_odd_fails (pool_of counting_factory [1, 2, 3] 3 False) world0))) =
     [CloseCall 1, CloseCall 2, CloseCall 3]"
proof -
  have e: "close_odd_fails 1 = Some (errors_New ''close failed'')"
    by (simp add: close_odd_fails_def)
  have wf: "wf_pool (pool_of counting_factory [1, 2, 3] 3 False)"
    by (simp add: wf_pool_of)
  have o: "\<not> closed (pool_of counting_factory [1, 2, 3] 3 False)"
    by (simp add: pool_of_def)
  note inst = disposal_errors_absorbed
    [of close_odd_fails "pool_of counting_factory [1, 2, 3] 3 False" 5 world0]
  from inst wf have r: "fst (Release close_odd_fails
      (pool_of counting_factory [1, 2, 3] 3 False) 5 world0) = Returns ()"
    and c: "fst (Close close_odd_fails
      (pool_of counting_factory [1, 2, 3] 3 False) world0) = Returns ()"
    by blast+
  from inst wf o have "trace (snd (snd (Close close_odd_fails
      (pool_of counting_factory [1, 2, 3] 3 False) world0))) =
     trace world0 @ map CloseCall (chan_buf (resources (pool_of counting_factory [1, 2, 3] 3 False)))"
    by blast
  then have t: "trace (snd (snd (Close close_odd_fails
      (pool_of counting_factory [1, 2, 3] 3 False) world0))) =
     [CloseCall 1, CloseCall 2, CloseCall 3]"
    by (simp add: world0_def pool_of_def)
  from e wf o r c t show ?thesis by blast
qed

subsection \<open>Interleavings\<close>

text \<open>
  C10. In every configuration that an interleaved execution reaches from a pool made
  by \<^verbatim>\<open>New\<close>: if the channel is closed then the closed flag is set; a \<^verbatim>\<open>Release\<close>
  that stands at its \<^verbatim>\<open>select\<close> finds the channel open, so its send does not panic;
  no panic has happened; and when the mutex is free, a \<^verbatim>\<open>Release\<close> of any resource
  returns normally.
\<close>

theorem Release_never_sends_on_closed_channel:
  assumes "New rt fn sz w0 = (Returns (Some p0, e), w1)"
    and "run cl acts (Idle, p0, w1) = Some (pc, p, w)"
  shows "(chan_closed (resources p) \<longrightarrow> closed p) \<and>
         (\<forall>r. pc = RelSelect r \<longrightarrow>
              \<not> chan_closed (resources p) \<and> chan_send (resources p) r \<noteq> SendPanics) \<and>
         (\<forall>s. pc \<noteq> Crashed s) \<and>
         (pc = Idle \<longrightarrow> (\<forall>r v. fst (Release cl p r v) = Returns ()))"
proof -
  from assms(1) have "pc_inv Idle p0"
    by (auto dest!: New_pool simp: make_chan_def)
  from pc_inv_run [OF this assms(2)] have inv: "pc_inv pc p" .
  have a: "chan_closed (resources p) \<longrightarrow> closed p"
    using inv by (auto dest: pc_inv_chan_closed)
  have b: "\<not> chan_closed (resources p) \<and> chan_send (resources p) r \<noteq> SendPanics"
    if "pc = RelSelect r" for r
    using inv that by (simp add: chan_send_def)
  have c: "pc \<noteq> Crashed s" for s
    using inv by auto
  have d: "fst (Release cl p r v) = Returns ()" if "pc = Idle" for r v
    using inv that by (intro Release_no_panic) simp_all
  from a b c d show ?thesis by blast
qed

text \<open>An instance: the example schedule, in which \<^verbatim>\<open>Acquire\<close> takes the idle
  resource while \<^verbatim>\<open>Close\<close> is under way and the resource is released afterwards.\<close>

theorem Release_never_sends_on_closed_channel_witness:
  "New linux_amd64 counting_factory (1::64 word) world0 =
     (Returns (Some (pool_of counting_factory [] 1 False), None), world0) \<and>
   run close_ok example_schedule (Idle, pool_of counting_factory [] 1 False, world0) =
     Some (Idle, pool_of counting_factory [] 1 True,
           \<lparr>trace = [LogLine ''Release: In Queue'', LogLine ''Acquire: Shared Resource'',
                     CloseCall 5], fstate = 100\<rparr>) \<and>
   chan_closed (resources (pool_of counting_factory [] 1 True)) \<and>
   closed (pool_of counting_factory [] 1 True) \<and>
   fst (Release close_ok (pool_of counting_factory [] 1 True) 6 world0) = Returns ()"
proof -
  have n: "New linux_amd64 counting_factory (1::64 word) world0 =
     (Returns (Some (pool_of counting_factory [] 1 False), None), world0)"
    by (simp add: New_def makechan_def make_chan_def pool_of_def linux_amd64_examples)
  note r = example_run
  note t = Release_never_sends_on_closed_channel [OF n r]
  have c: "chan_closed (resources (pool_of counting_factory [] 1 True))"
    by (simp add: pool_of_def)
  from t c have f: "closed (pool_of counting_factory [] 1 True)"
    by blast
  from t have g: "fst (Release close_ok (pool_of counting_factory [] 1 True) 6 world0) = Returns ()"
    by blast
  from n r c f g show ?thesis by blast
qed

end
